theory Spec2Isabelle
  imports Main "HOL-Library.Word"
begin

unbundle bit_operations_syntax

section \<open>Machine words and failures\<close>

text \<open>
  \<^verbatim>\<open>mword\<close>, \<^verbatim>\<open>size_t\<close> and pointers of \<^verbatim>\<open>sgen-gc.c\<close> are
  modelled as 64-bit words (an LP64 target): \<open>+\<close>, \<open>-\<close> and \<open>*\<close> wrap, \<open><\<close> and
  \<open>\<le>\<close> compare unsigned, \<open><s\<close> compares signed. A \<^verbatim>\<open>glong\<close> is a 64-bit
  word read with \<open>sint\<close>.

  A failed \<^verbatim>\<open>g_assert\<close> aborts the process and \<^verbatim>\<open>exit (1)\<close> ends it;
  both are values of \<open>error\<close>, returned as \<open>Inl\<close>. \<open>Invalid_read\<close> stands for a read
  before the first element of an array, which C leaves undefined.
\<close>

type_synonym mword = "64 word"

datatype error = Assertion_failed | Fatal_exit string | Invalid_read

section \<open>Registered roots\<close>

text \<open>
  \<^verbatim>\<open>RootRecord\<close> is \<^verbatim>\<open>{ char *end_root; mword root_desc; }\<close>; a record
  is found through its start address, the key of the hash table it lives in. There is one
  table for each root type, scanned in the order of the enumeration
  (\<^verbatim>\<open>ROOT_TYPE_NORMAL = 0, ROOT_TYPE_PINNED = 1, ROOT_TYPE_WBARRIER = 2\<close>).
\<close>

record RootRecord =
  end_root :: mword
  root_desc :: mword

datatype root_type = ROOT_TYPE_NORMAL | ROOT_TYPE_PINNED | ROOT_TYPE_WBARRIER

definition root_types :: "root_type list" where
  "root_types = [ROOT_TYPE_NORMAL, ROOT_TYPE_PINNED, ROOT_TYPE_WBARRIER]"

record roots_state =
  roots_hash :: "root_type \<Rightarrow> mword \<rightharpoonup> RootRecord"
  roots_size :: mword

text \<open>
  The loop of \<^verbatim>\<open>mono_gc_register_root_inner\<close> over the tables
  \<^verbatim>\<open>for (i = 0; i < ROOT_TYPE_NUM; ++i)\<close>: at the first table that holds
  \<open>start\<close> the record is rewritten and the function returns; \<open>None\<close> means the loop
  ran to its end without finding one.
\<close>

fun register_root_existing ::
  "root_type list \<Rightarrow> mword \<Rightarrow> mword \<Rightarrow> mword \<Rightarrow> roots_state \<Rightarrow> (error + roots_state) option"
where
  "register_root_existing [] start sz descr st = None"
| "register_root_existing (i # rest) start sz descr st =
     (case roots_hash st i start of
        Some root \<Rightarrow>
          (let old_size = end_root root - start in
           if (root_desc root \<noteq> 0 \<and> descr \<noteq> 0) \<or> (root_desc root = 0 \<and> descr = 0)
           then Some (Inr (st\<lparr>roots_hash := (roots_hash st)
                                 (i := (roots_hash st i)
                                    (start \<mapsto> \<lparr>end_root = start + sz, root_desc = descr\<rparr>)),
                               roots_size := roots_size st + sz - old_size\<rparr>))
           else Some (Inl Assertion_failed))
      | None \<Rightarrow> register_root_existing rest start sz descr st)"

definition mono_gc_register_root_inner ::
  "mword \<Rightarrow> mword \<Rightarrow> mword \<Rightarrow> root_type \<Rightarrow> roots_state \<Rightarrow> error + roots_state"
where
  "mono_gc_register_root_inner start sz descr rt st =
     (case register_root_existing root_types start sz descr st of
        Some r \<Rightarrow> r
      | None \<Rightarrow>
          Inr (st\<lparr>roots_hash := (roots_hash st)
                     (rt := (roots_hash st rt)
                        (start \<mapsto> \<lparr>end_root = start + sz, root_desc = descr\<rparr>)),
                   roots_size := roots_size st + sz\<rparr>))"

definition mono_gc_register_root :: "mword \<Rightarrow> mword \<Rightarrow> mword \<Rightarrow> roots_state \<Rightarrow> error + roots_state"
where
  "mono_gc_register_root start sz descr st =
     mono_gc_register_root_inner start sz descr
       (if descr \<noteq> 0 then ROOT_TYPE_NORMAL else ROOT_TYPE_PINNED) st"

definition mono_gc_register_root_wbarrier ::
  "mword \<Rightarrow> mword \<Rightarrow> mword \<Rightarrow> roots_state \<Rightarrow> error + roots_state"
where
  "mono_gc_register_root_wbarrier start sz descr st =
     mono_gc_register_root_inner start sz descr ROOT_TYPE_WBARRIER st"

text \<open>
  \<^verbatim>\<open>mono_gc_deregister_root\<close>: every table is asked to remove \<open>addr\<close>; each
  removal that succeeds takes the removed record's extent off \<^verbatim>\<open>roots_size\<close>.
\<close>

fun deregister_root_loop :: "root_type list \<Rightarrow> mword \<Rightarrow> roots_state \<Rightarrow> roots_state" where
  "deregister_root_loop [] addr st = st"
| "deregister_root_loop (t # rest) addr st =
     (case roots_hash st t addr of
        Some root \<Rightarrow>
          deregister_root_loop rest addr
            (st\<lparr>roots_hash := (roots_hash st)(t := (roots_hash st t)(addr := None)),
                roots_size := roots_size st - (end_root root - addr)\<rparr>)
      | None \<Rightarrow> deregister_root_loop rest addr st)"

definition mono_gc_deregister_root :: "mword \<Rightarrow> roots_state \<Rightarrow> roots_state" where
  "mono_gc_deregister_root addr st = deregister_root_loop root_types addr st"

section \<open>Heap size limits\<close>

text \<open>
  The globals \<^verbatim>\<open>init_heap_size_limits\<close> reads and writes. \<^verbatim>\<open>nursery_size\<close>
  is set from \<^verbatim>\<open>DEFAULT_NURSERY_SIZE\<close> just before the call; that constant is
  declared in a header, so the value stays a field of the state.
\<close>

record heap_limits =
  max_heap_size :: mword
  soft_heap_limit :: mword
  nursery_size :: mword

text \<open>
  \<^verbatim>\<open>max_heap < soft_limit\<close> compares two \<^verbatim>\<open>glong\<close>s, signed.
  \<^verbatim>\<open>max_heap < nursery_size * 4\<close> has an unsigned right-hand side, so C converts
  \<open>max_heap\<close> to unsigned and the product wraps.
\<close>

definition init_heap_size_limits :: "64 word \<Rightarrow> 64 word \<Rightarrow> heap_limits \<Rightarrow> error + heap_limits" where
  "init_heap_size_limits max_heap soft_limit st =
     (let st1 = (if soft_limit \<noteq> 0 then st\<lparr>soft_heap_limit := soft_limit\<rparr> else st) in
      if max_heap = 0 then Inr st1
      else if max_heap <s soft_limit then
        Inl (Fatal_exit ''max-heap-size must be at least as large as soft-heap-limit.'')
      else if max_heap < nursery_size st1 * 4 then
        Inl (Fatal_exit ''max-heap-size must be at least 4 times larger than nursery size.'')
      else Inr (st1\<lparr>max_heap_size := max_heap - nursery_size st1\<rparr>))"

text \<open>
  The test that \<^verbatim>\<open>mono_gc_base_init\<close> makes on the number given with
  \<^verbatim>\<open>max-heap-size=\<close> before it reaches \<^verbatim>\<open>init_heap_size_limits\<close>: it has to be a
  multiple of the page size (\<^verbatim>\<open>mono_pagesize\<close>, an \<^verbatim>\<open>int\<close> from outside).
\<close>

definition max_heap_size_option :: "32 word \<Rightarrow> 64 word \<Rightarrow> error + 64 word" where
  "max_heap_size_option pagesize max_heap =
     (if max_heap AND scast (pagesize - 1) \<noteq> 0 then
        Inl (Fatal_exit ''max-heap-size size must be a multiple of %d.'')
      else Inr max_heap)"

text \<open>
  The table in which a start address is registered: the first one, in the order the
  tables are scanned, that holds the address.
\<close>

definition registered_in :: "roots_state \<Rightarrow> mword \<Rightarrow> root_type option" where
  "registered_in st start = List.find (\<lambda>t. roots_hash st t start \<noteq> None) root_types"

section \<open>Collector state and external calls\<close>

text \<open>
  The generations are the integers of the enumeration; \<^verbatim>\<open>current_collection_generation\<close>
  is \<open>-1\<close> outside a collection.
\<close>

definition GENERATION_NURSERY :: int where "GENERATION_NURSERY = 0"
definition GENERATION_OLD :: int where "GENERATION_OLD = 1"

text \<open>
  The function pointers of the major collector that \<^verbatim>\<open>mono_sgen_get_copy_object\<close> and
  \<^verbatim>\<open>mono_sgen_get_minor_scan_object\<close> choose from, and the jobs handed to the workers.
\<close>

datatype copy_func = Copy_object | Nopar_copy_object | Copy_or_mark_object

datatype scan_func = Minor_scan_object | Nopar_minor_scan_object | Major_scan_object

datatype job = Job_finish_remembered_set_scan mword mword
  | Job_scan_from_registered_roots copy_func mword mword root_type
  | Job_scan_thread_data mword mword

text \<open>
  The collector works through functions of the major collector, the remembered set, the
  nursery allocator, the pin queue, the worker pool and the finalization and weak-link
  tables, and through helpers that walk managed memory. Each such call is a value of
  \<open>ext_call\<close>, carrying the arguments the caller chooses (the gray queue argument is left
  out: the state holds one gray queue). What a call does to the state is given by the
  environment; the order of the calls is what the functions below fix. Timing, logging,
  profiler events and the binary protocol are left out.
\<close>

datatype ext_call =
    Bridge_reset_data
  | Mark_ephemerons_in_range copy_func mword mword
  | Scan_togglerefs copy_func mword mword
  | Collect_bridge_objects copy_func mword mword int
  | Null_link_in_range copy_func mword mword int bool
  | Finalize_in_range copy_func mword mword int
  | Clear_unreachable_ephemerons copy_func mword mword
  | Scan_object scan_func mword
  | Have_computed_minor_collection_allowance
  | Verify_nursery
  | Check_scan_starts
  | Clear_current_nursery_fragment
  | Check_for_xdomain_refs
  | Start_nursery_collection
  | Gray_object_queue_init
  | Workers_init_distribute_gray_queue
  | Prepare_for_minor_collection
  | Process_fin_stage_entries
  | Process_dislink_stage_entries
  | Init_pinning
  | Pin_from_roots mword mword
  | Optimize_pin_queue
  | Pinning_setup_section
  | Pin_objects_in_section
  | Check_consistency
  | Workers_start_all_workers
  | Begin_scan_remsets mword mword
  | Workers_start_marking
  | Workers_enqueue_job job
  | Workers_distribute_gray_queue_sections
  | Workers_join
  | Workers_reset_data
  | Build_nursery_fragments
  | Clear_tlabs
  | Check_major_refs
  | Finish_nursery_collection
  | Dump_heap
  | Finish_pinning
  | Finalize_notify
  | Pin_stats_reset
  | Finish_minor_collection

text \<open>
  The global variables the modelled functions read or write, the gray queue as the list of
  its objects (the head is dequeued next), the calls made so far, and whatever else the
  external code owns (\<open>ext\<close>).
\<close>

record 'x gc_state = heap_limits +
  allocated_heap :: mword
  objects_pinned :: mword
  bytes_pinned_from_failed_allocation :: mword
  minor_collection_allowance :: mword
  minor_collection_sections_alloced :: "32 word"
  need_calculate_minor_collection_allowance :: bool
  last_collection_old_num_major_sections :: "32 word"
  last_collection_los_memory_usage :: mword
  last_collection_old_los_memory_usage :: mword
  last_collection_los_memory_alloced :: mword
  los_memory_usage :: mword
  have_swept :: bool
  disable_minor_collections :: bool
  nursery_collection_is_parallel :: bool
  major_is_parallel :: bool
  xdomain_checks :: bool
  consistency_check_at_minor_collection :: bool
  heap_dump_file :: bool
  current_collection_generation :: int
  degraded_mode :: int
  gc_collections0 :: "32 word"
  stat_minor_gcs :: "32 word"
  minor_gc_count :: "32 word"
  num_ready_finalizers :: int
  fin_ready_list :: mword
  critical_fin_list :: mword
  nursery_section_size :: mword
  nursery_section_next_data :: mword
  gray_queue :: "mword list"
  trace :: "ext_call list"
  ext :: 'x

text \<open>
  The environment: constants from headers (\<^verbatim>\<open>DEFAULT_NURSERY_SIZE\<close>, the section size
  of the major collector, the nursery bounds), getters without effect, which optional
  function pointers are set (\<open>provided\<close>), and the effect and result of every external call
  (\<open>run\<close>). \<open>double_ratio a b c\<close> stands for the \<^verbatim>\<open>double\<close> expression
  \<^verbatim>\<open>(mword)((double) a * (double) b / (double) c)\<close> stored into an \<^verbatim>\<open>int\<close>; its
  value is not modelled. \<open>gray_queue_is_distributed\<close> is the answer of
  \<^verbatim>\<open>mono_sgen_workers_is_distributed_queue\<close> for the collector's own gray queue.
\<close>

record 'x env =
  DEFAULT_NURSERY_SIZE :: mword
  section_size :: mword
  nursery_start :: mword
  nursery_end :: mword
  gray_queue_is_distributed :: bool
  double_ratio :: "32 word \<Rightarrow> mword \<Rightarrow> mword \<Rightarrow> 32 word"
  get_num_major_sections :: "'x gc_state \<Rightarrow> 32 word"
  need_bridge_processing :: "'x gc_state \<Rightarrow> bool"
  nursery_alloc_get_upper_alloc_bound :: "'x gc_state \<Rightarrow> mword"
  distribute_gray_queue_is_empty :: "'x gc_state \<Rightarrow> bool"
  provided :: "ext_call \<Rightarrow> bool"
  run :: "ext_call \<Rightarrow> 'x gc_state \<Rightarrow> mword \<times> 'x gc_state"

text \<open>
  \<open>call\<close> performs an external call and records it; \<open>exec\<close> drops the result,
  \<open>exec_if\<close> is a call under a condition. \<open>then_res\<close> sequences computations that may
  not return (\<open>None\<close>) or may abort (\<open>Some (Inl e)\<close>); \<open>assert_res\<close> is \<^verbatim>\<open>g_assert\<close>.
\<close>

definition call :: "'x env \<Rightarrow> ext_call \<Rightarrow> 'x gc_state \<Rightarrow> mword \<times> 'x gc_state" where
  "call E c st = (let (r, st') = run E c st in (r, st'\<lparr>trace := trace st @ [c]\<rparr>))"

definition exec :: "'x env \<Rightarrow> ext_call \<Rightarrow> 'x gc_state \<Rightarrow> 'x gc_state" where
  "exec E c st = snd (call E c st)"

definition exec_if :: "bool \<Rightarrow> 'x env \<Rightarrow> ext_call \<Rightarrow> 'x gc_state \<Rightarrow> 'x gc_state" where
  "exec_if b E c st = (if b then exec E c st else st)"

definition then_res :: "(error + 'a) option \<Rightarrow> ('a \<Rightarrow> (error + 'b) option) \<Rightarrow> (error + 'b) option" where
  "then_res m f = (case m of None \<Rightarrow> None | Some (Inl e) \<Rightarrow> Some (Inl e) | Some (Inr x) \<Rightarrow> f x)"

definition assert_res :: "bool \<Rightarrow> 'a \<Rightarrow> (error + 'a) option" where
  "assert_res b x = (if b then Some (Inr x) else Some (Inl Assertion_failed))"

section \<open>Heap size accounting and the allowance\<close>

text \<open>
  \<^verbatim>\<open>try_calculate_minor_collection_allowance\<close>. The local \<^verbatim>\<open>int\<close>s are 32-bit
  words, converted to \<^verbatim>\<open>mword\<close> with sign extension (\<open>scast\<close>) where C's usual
  arithmetic conversions do so; \<^verbatim>\<open>MAX (a, b)\<close> is \<^verbatim>\<open>a > b ? a : b\<close> and
  \<^verbatim>\<open>MIN (a, b)\<close> is \<^verbatim>\<open>a < b ? a : b\<close>. \<open>new_heap_size\<close> and \<open>allowance_upper\<close>
  name the expressions \<^verbatim>\<open>new_major + last_collection_los_memory_usage\<close> and
  \<^verbatim>\<open>num_major_sections * major_collector.section_size + los_memory_usage\<close>;
  \<open>calculate_allowance\<close> is the value the function leaves in
  \<^verbatim>\<open>minor_collection_allowance\<close> once the major collector has swept.
\<close>

definition available_free_space :: "'x gc_state \<Rightarrow> mword" where
  "available_free_space st = max_heap_size st - min (allocated_heap st) (max_heap_size st)"

definition MIN_MINOR_COLLECTION_ALLOWANCE :: "'x env \<Rightarrow> mword" where
  "MIN_MINOR_COLLECTION_ALLOWANCE E = DEFAULT_NURSERY_SIZE E * 4"

definition new_heap_size :: "'x env \<Rightarrow> 32 word \<Rightarrow> 'x gc_state \<Rightarrow> mword" where
  "new_heap_size E num_major_sections st =
     scast num_major_sections * section_size E + last_collection_los_memory_usage st"

definition allowance_upper :: "'x env \<Rightarrow> 32 word \<Rightarrow> 'x gc_state \<Rightarrow> mword" where
  "allowance_upper E num_major_sections st =
     scast num_major_sections * section_size E + los_memory_usage st"

definition allowance_target :: "'x env \<Rightarrow> 32 word \<Rightarrow> 'x gc_state \<Rightarrow> 32 word" where
  "allowance_target E num_major_sections st =
     (let d = last_collection_old_num_major_sections st - num_major_sections;
          num_major_sections_saved = (if 0 <s d then d else 0);
          l = last_collection_old_los_memory_usage st - last_collection_los_memory_usage st;
          los_memory_saved = (if 1 < l then l else 1);
          new_major = scast num_major_sections * section_size E;
          save_target = (ucast ((new_major + los_memory_saved) div 2) :: 32 word)
      in double_ratio E save_target
           (scast (minor_collection_sections_alloced st) * section_size E
              + last_collection_los_memory_alloced st)
           (scast num_major_sections_saved * section_size E + los_memory_saved))"

definition calculate_allowance :: "'x env \<Rightarrow> 32 word \<Rightarrow> 'x gc_state \<Rightarrow> mword" where
  "calculate_allowance E num_major_sections st =
     (let target = (scast (allowance_target E num_major_sections st) :: mword);
          upper = allowance_upper E num_major_sections st;
          lower = MIN_MINOR_COLLECTION_ALLOWANCE E;
          m = (if target < upper then target else upper);
          a = (if lower < m then m else lower);
          nhs = new_heap_size E num_major_sections st
      in if soft_heap_limit st < nhs + a then
           (if soft_heap_limit st < nhs then lower
            else (if lower < soft_heap_limit st - nhs then soft_heap_limit st - nhs else lower))
         else a)"

definition try_calculate_minor_collection_allowance ::
  "'x env \<Rightarrow> bool \<Rightarrow> 'x gc_state \<Rightarrow> error + 'x gc_state" where
  "try_calculate_minor_collection_allowance E overwrite st =
     (if overwrite \<and> \<not> need_calculate_minor_collection_allowance st then Inl Assertion_failed
      else if \<not> need_calculate_minor_collection_allowance st then Inr st
      else if \<not> have_swept st then
        Inr (if overwrite
             then st\<lparr>minor_collection_allowance := MIN_MINOR_COLLECTION_ALLOWANCE E\<rparr> else st)
      else
        (let num_major_sections = get_num_major_sections E st;
             st2 = st\<lparr>minor_collection_allowance := calculate_allowance E num_major_sections st\<rparr>;
             st3 = exec_if (provided E Have_computed_minor_collection_allowance) E
                     Have_computed_minor_collection_allowance st2
         in Inr (st3\<lparr>need_calculate_minor_collection_allowance := False\<rparr>)))"

definition need_major_collection :: "'x env \<Rightarrow> mword \<Rightarrow> 'x gc_state \<Rightarrow> bool" where
  "need_major_collection E space_needed st =
     (let los_alloced = los_memory_usage st
            - min (last_collection_los_memory_usage st) (los_memory_usage st)
      in available_free_space st < space_needed \<or>
         minor_collection_allowance st
           < scast (minor_collection_sections_alloced st) * section_size E + los_alloced)"


section \<open>Draining the gray queue\<close>

text \<open>
  \<^verbatim>\<open>mono_sgen_drain_gray_stack\<close>. Both loops dequeue until the queue hands out no
  object; scanning an object may enqueue more, so neither loop has to end:
  they are partial functions, \<open>None\<close> when they run forever. In the loop for the old
  generation the counter \<open>i\<close> is an unbounded integer; with a negative \<open>max_objs\<close> it never
  meets the bound and the \<^verbatim>\<open>do ... while (max_objs < 0)\<close> around it repeats in any case.
  \<open>drain\<close> is the call \<^verbatim>\<open>mono_sgen_drain_gray_stack (queue, -1)\<close> with its result dropped.
\<close>

definition mono_sgen_collection_is_parallel :: "'x gc_state \<Rightarrow> error + bool" where
  "mono_sgen_collection_is_parallel st =
     (if current_collection_generation st = GENERATION_NURSERY
        then Inr (nursery_collection_is_parallel st)
      else if current_collection_generation st = GENERATION_OLD
        then Inr (major_is_parallel st)
      else Inl Assertion_failed)"

definition mono_sgen_get_copy_object :: "'x gc_state \<Rightarrow> error + copy_func" where
  "mono_sgen_get_copy_object st =
     (if current_collection_generation st = GENERATION_NURSERY then
        (case mono_sgen_collection_is_parallel st of
           Inl e \<Rightarrow> Inl e
         | Inr par \<Rightarrow> Inr (if par then Copy_object else Nopar_copy_object))
      else Inr Copy_or_mark_object)"

definition mono_sgen_get_minor_scan_object :: "'x gc_state \<Rightarrow> error + scan_func" where
  "mono_sgen_get_minor_scan_object st =
     (if current_collection_generation st \<noteq> GENERATION_NURSERY then Inl Assertion_failed
      else (case mono_sgen_collection_is_parallel st of
              Inl e \<Rightarrow> Inl e
            | Inr par \<Rightarrow> Inr (if par then Minor_scan_object else Nopar_minor_scan_object)))"

partial_function (option) drain_minor_loop ::
  "'x env \<Rightarrow> scan_func \<Rightarrow> 'x gc_state \<Rightarrow> (bool \<times> 'x gc_state) option" where
  "drain_minor_loop E scan st =
     (case gray_queue st of
        [] \<Rightarrow> Some (True, st)
      | obj # rest \<Rightarrow> drain_minor_loop E scan (exec E (Scan_object scan obj) (st\<lparr>gray_queue := rest\<rparr>)))"

declare drain_minor_loop.simps [code]

partial_function (option) drain_major_loop ::
  "'x env \<Rightarrow> int \<Rightarrow> int \<Rightarrow> 'x gc_state \<Rightarrow> (bool \<times> 'x gc_state) option" where
  "drain_major_loop E max_objs i st =
     (if i \<noteq> max_objs then
        (case gray_queue st of
           [] \<Rightarrow> Some (True, st)
         | obj # rest \<Rightarrow>
             drain_major_loop E max_objs (i + 1)
               (exec E (Scan_object Major_scan_object obj) (st\<lparr>gray_queue := rest\<rparr>)))
      else if max_objs < 0 then drain_major_loop E max_objs 0 st
      else Some (False, st))"

declare drain_major_loop.simps [code]

definition mono_sgen_drain_gray_stack ::
  "'x env \<Rightarrow> int \<Rightarrow> 'x gc_state \<Rightarrow> (error + bool \<times> 'x gc_state) option" where
  "mono_sgen_drain_gray_stack E max_objs st =
     (if current_collection_generation st = GENERATION_NURSERY then
        (case mono_sgen_get_minor_scan_object st of
           Inl e \<Rightarrow> Some (Inl e)
         | Inr scan \<Rightarrow> map_option Inr (drain_minor_loop E scan st))
      else
        (case mono_sgen_collection_is_parallel st of
           Inl e \<Rightarrow> Some (Inl e)
         | Inr par \<Rightarrow>
             if par \<and> gray_queue_is_distributed E then Some (Inr (True, st))
             else map_option Inr (drain_major_loop E max_objs 0 st)))"

definition drain :: "'x env \<Rightarrow> 'x gc_state \<Rightarrow> (error + 'x gc_state) option" where
  "drain E st = then_res (mono_sgen_drain_gray_stack E (- 1) st) (\<lambda>(r, st'). Some (Inr st'))"

section \<open>Finishing the gray stack\<close>

text \<open>
  \<^verbatim>\<open>finish_gray_stack\<close> and its three loops: the ephemeron fixed point
  (\<^verbatim>\<open>do ... while (!done_with_ephemerons)\<close>), the finalization loop
  (\<^verbatim>\<open>do ... while (fin_ready != num_ready_finalizers)\<close>, counting its productive rounds
  in \<open>num_loops\<close>) and the last loop, which nulls the tracking links and leaves only when
  the gray queue is empty. \<^verbatim>\<open>mark_ephemerons_in_range\<close>,
  \<^verbatim>\<open>clear_unreachable_ephemerons\<close>, \<^verbatim>\<open>null_link_in_range\<close> and
  \<^verbatim>\<open>finalize_in_range\<close> are external calls here; the last argument of
  \<open>Null_link_in_range\<close> is \<^verbatim>\<open>before_finalization\<close>, true for the links that do not track
  resurrection.
\<close>

partial_function (option) ephemeron_loop ::
  "'x env \<Rightarrow> copy_func \<Rightarrow> mword \<Rightarrow> mword \<Rightarrow> 'x gc_state \<Rightarrow> (error + 'x gc_state) option" where
  "ephemeron_loop E copy start_addr end_addr st =
     (case call E (Mark_ephemerons_in_range copy start_addr end_addr) st of
        (done_with_ephemerons, st1) \<Rightarrow>
          (case drain E st1 of
             None \<Rightarrow> None
           | Some (Inl e) \<Rightarrow> Some (Inl e)
           | Some (Inr st2) \<Rightarrow>
               if done_with_ephemerons = 0 then ephemeron_loop E copy start_addr end_addr st2
               else Some (Inr st2)))"

declare ephemeron_loop.simps [code]


partial_function (option) finalize_loop ::
  "'x env \<Rightarrow> copy_func \<Rightarrow> mword \<Rightarrow> mword \<Rightarrow> int \<Rightarrow> int \<Rightarrow> 'x gc_state
     \<Rightarrow> (error + int \<times> 'x gc_state) option" where
  "finalize_loop E copy start_addr end_addr generation num_loops st =
     (let fin_ready = num_ready_finalizers st;
          st1 = exec E (Finalize_in_range copy start_addr end_addr generation) st;
          st2 = exec_if (generation = GENERATION_OLD) E
                  (Finalize_in_range copy (nursery_start E) (nursery_end E) GENERATION_NURSERY) st1;
          num_loops' = (if fin_ready \<noteq> num_ready_finalizers st2 then num_loops + 1 else num_loops)
      in case drain E st2 of
           None \<Rightarrow> None
         | Some (Inl e) \<Rightarrow> Some (Inl e)
         | Some (Inr st3) \<Rightarrow>
             if fin_ready \<noteq> num_ready_finalizers st3
             then finalize_loop E copy start_addr end_addr generation num_loops' st3
             else Some (Inr (num_loops', st3)))"

declare finalize_loop.simps [code]

partial_function (option) null_link_loop ::
  "'x env \<Rightarrow> copy_func \<Rightarrow> mword \<Rightarrow> mword \<Rightarrow> int \<Rightarrow> 'x gc_state \<Rightarrow> (error + 'x gc_state) option"
where
  "null_link_loop E copy start_addr end_addr generation st =
     (let st1 = exec E (Null_link_in_range copy start_addr end_addr generation False) st;
          st2 = exec_if (generation = GENERATION_OLD) E
                  (Null_link_in_range copy start_addr end_addr GENERATION_NURSERY False) st1
      in if gray_queue st2 = [] then Some (Inr st2)
         else (case drain E st2 of
                 None \<Rightarrow> None
               | Some (Inl e) \<Rightarrow> Some (Inl e)
               | Some (Inr st3) \<Rightarrow> null_link_loop E copy start_addr end_addr generation st3))"

declare null_link_loop.simps [code]

definition finish_gray_stack ::
  "'x env \<Rightarrow> mword \<Rightarrow> mword \<Rightarrow> int \<Rightarrow> 'x gc_state \<Rightarrow> (error + 'x gc_state) option" where
  "finish_gray_stack E start_addr end_addr generation st =
     then_res (Some (mono_sgen_get_copy_object st)) (\<lambda>copy.
     then_res (drain E st) (\<lambda>st.
     then_res (ephemeron_loop E copy start_addr end_addr (exec E Bridge_reset_data st)) (\<lambda>st.
     let st = exec E (Scan_togglerefs copy start_addr end_addr) st;
         st = exec_if (generation = GENERATION_OLD) E
                (Scan_togglerefs copy (nursery_start E) (nursery_end E)) st
     in
     then_res
       (if need_bridge_processing E st then
          drain E
            (exec_if (generation = GENERATION_OLD) E
               (Collect_bridge_objects copy (nursery_start E) (nursery_end E) GENERATION_NURSERY)
               (exec E (Collect_bridge_objects copy start_addr end_addr generation) st))
        else Some (Inr st)) (\<lambda>st.
     let st = exec E (Null_link_in_range copy start_addr end_addr generation True) st;
         st = exec_if (generation = GENERATION_OLD) E
                (Null_link_in_range copy start_addr end_addr GENERATION_NURSERY True) st
     in
     then_res (finalize_loop E copy start_addr end_addr generation 0 st) (\<lambda>(num_loops, st).
     then_res (assert_res (need_bridge_processing E st \<longrightarrow> num_loops \<le> 1) st) (\<lambda>st.
     then_res (ephemeron_loop E copy start_addr end_addr st) (\<lambda>st.
     let st = exec E (Clear_unreachable_ephemerons copy start_addr end_addr) st in
     then_res (assert_res (gray_queue st = []) st) (\<lambda>st.
     then_res (null_link_loop E copy start_addr end_addr generation st) (\<lambda>st.
     assert_res (gray_queue st = []) st)))))))))"


section \<open>The nursery collection\<close>

text \<open>
  \<^verbatim>\<open>collect_nursery\<close>, cut into the pinning phase, the scanning phase, the call of
  \<^verbatim>\<open>finish_gray_stack\<close> and the reclaiming phase. \<open>collect_nursery_body\<close> is the
  function from the statement after the \<^verbatim>\<open>disable_minor_collections\<close> test up to, and
  without, the computation of \<^verbatim>\<open>needs_major\<close>. \<open>distribute_loop\<close> is the loop that, in
  a parallel collection, hands out gray queue sections until the distribute queue is empty.
  \<^verbatim>\<open>WORKERS_DISTRIBUTE_GRAY_QUEUE\<close> evaluates \<^verbatim>\<open>mono_sgen_collection_is_parallel\<close>,
  which asserts that a collection is running; the model evaluates it at the same places.
\<close>

partial_function (option) distribute_loop :: "'x env \<Rightarrow> 'x gc_state \<Rightarrow> 'x gc_state option" where
  "distribute_loop E st =
     (if distribute_gray_queue_is_empty E st then Some st
      else distribute_loop E (exec E Workers_distribute_gray_queue_sections st))"

declare distribute_loop.simps [code]

definition reset_pinned_from_failed_allocation :: "'x gc_state \<Rightarrow> 'x gc_state" where
  "reset_pinned_from_failed_allocation st = st\<lparr>bytes_pinned_from_failed_allocation := 0\<rparr>"

definition collect_nursery_pin :: "'x env \<Rightarrow> 'x gc_state \<Rightarrow> (error + mword \<times> 'x gc_state) option" where
  "collect_nursery_pin E st =
     (let st = exec E Verify_nursery st;
          st = st\<lparr>gc_collections0 := gc_collections0 st + 1\<rparr>;
          st = st\<lparr>current_collection_generation := GENERATION_NURSERY\<rparr>;
          st = reset_pinned_from_failed_allocation st;
          st = exec E Check_scan_starts st;
          st = st\<lparr>degraded_mode := 0\<rparr>;
          st = st\<lparr>objects_pinned := 0\<rparr>;
          nursery_next = nursery_alloc_get_upper_alloc_bound E st;
          nursery_next = (if nursery_end E < nursery_next then nursery_next else nursery_end E);
          max_garbage_amount = nursery_next - nursery_start E
      in
      then_res (assert_res (max_garbage_amount \<le> nursery_section_size st) st) (\<lambda>st.
      let st = exec E Clear_current_nursery_fragment st;
          st = exec_if (xdomain_checks st) E Check_for_xdomain_refs st;
          st = st\<lparr>nursery_section_next_data := nursery_next\<rparr>;
          st = exec E Start_nursery_collection st
      in
      then_res (Some (try_calculate_minor_collection_allowance E False st)) (\<lambda>st.
      let st = exec E Gray_object_queue_init st;
          st = exec E Workers_init_distribute_gray_queue st;
          st = st\<lparr>stat_minor_gcs := stat_minor_gcs st + 1\<rparr>;
          st = st\<lparr>minor_gc_count := minor_gc_count st + 1\<rparr>;
          st = exec_if (provided E Prepare_for_minor_collection) E Prepare_for_minor_collection st;
          st = exec E Process_fin_stage_entries st;
          st = exec E Process_dislink_stage_entries st;
          st = exec E Init_pinning st
      in
      then_res (Some (mono_sgen_collection_is_parallel st)) (\<lambda>par.
      let st = exec E (Pin_from_roots (nursery_start E) nursery_next) st;
          st = exec E Optimize_pin_queue st;
          st = exec E Pinning_setup_section st
      in
      then_res (Some (mono_sgen_collection_is_parallel st)) (\<lambda>par.
      let st = exec E Pin_objects_in_section st
      in Some (Inr (nursery_next, st)))))))"

definition collect_nursery_scan :: "'x env \<Rightarrow> mword \<Rightarrow> 'x gc_state \<Rightarrow> (error + 'x gc_state) option" where
  "collect_nursery_scan E nursery_next st =
     (let st = exec_if (consistency_check_at_minor_collection st) E Check_consistency st;
          st = exec E Workers_start_all_workers st
      in
      then_res (if provided E (Begin_scan_remsets (nursery_start E) nursery_next)
                then Some (mono_sgen_collection_is_parallel st) else Some (Inr False)) (\<lambda>par.
      let st = exec_if (provided E (Begin_scan_remsets (nursery_start E) nursery_next)) E
                 (Begin_scan_remsets (nursery_start E) nursery_next) st;
          st = exec E Workers_start_marking st;
          st = exec E (Workers_enqueue_job
                 (Job_finish_remembered_set_scan (nursery_start E) nursery_next)) st
      in
      then_res (Some (mono_sgen_collection_is_parallel st)) (\<lambda>par.
      then_res (if \<not> par then drain E st else Some (Inr st)) (\<lambda>st.
      then_res (Some (mono_sgen_collection_is_parallel st)) (\<lambda>par.
      let st = exec E (Workers_enqueue_job (Job_scan_from_registered_roots
                 (if par then Copy_object else Nopar_copy_object)
                 (nursery_start E) nursery_next ROOT_TYPE_NORMAL)) st
      in
      then_res (Some (mono_sgen_collection_is_parallel st)) (\<lambda>par.
      let st = exec E (Workers_enqueue_job (Job_scan_from_registered_roots
                 (if par then Copy_object else Nopar_copy_object)
                 (nursery_start E) nursery_next ROOT_TYPE_WBARRIER)) st;
          st = exec E (Workers_enqueue_job (Job_scan_thread_data (nursery_start E) nursery_next)) st
      in
      then_res (Some (mono_sgen_collection_is_parallel st)) (\<lambda>par.
      then_res (if par then map_option Inr (distribute_loop E st) else Some (Inr st)) (\<lambda>st.
      let st = exec E Workers_join st in
      then_res (Some (mono_sgen_collection_is_parallel st)) (\<lambda>par.
      assert_res (par \<longrightarrow> gray_queue st = []) st)))))))))"

definition collect_nursery_reclaim :: "'x env \<Rightarrow> 'x gc_state \<Rightarrow> (error + 'x gc_state) option" where
  "collect_nursery_reclaim E st =
     (let st = exec E Workers_reset_data st;
          late_pinned = (objects_pinned st \<noteq> 0);
          st = exec_if late_pinned E Optimize_pin_queue st;
          st = exec_if late_pinned E Pinning_setup_section st;
          (fragment_total, st) = call E Build_nursery_fragments st;
          st = (if fragment_total = 0 then st\<lparr>degraded_mode := 1\<rparr> else st);
          st = exec E Clear_tlabs st;
          st = exec_if (consistency_check_at_minor_collection st) E Check_major_refs st;
          st = exec E Finish_nursery_collection st;
          st = exec_if (heap_dump_file st) E Dump_heap st;
          st = exec E Finish_pinning st;
          st = exec_if (fin_ready_list st \<noteq> 0 \<or> critical_fin_list st \<noteq> 0) E Finalize_notify st;
          st = exec E Pin_stats_reset st
      in
      then_res (assert_res (gray_queue st = []) st) (\<lambda>st.
      let st = exec_if (provided E Finish_minor_collection) E Finish_minor_collection st;
          st = exec E Check_scan_starts st
      in Some (Inr st)))"

definition collect_nursery_body :: "'x env \<Rightarrow> 'x gc_state \<Rightarrow> (error + 'x gc_state) option" where
  "collect_nursery_body E st =
     then_res (collect_nursery_pin E st) (\<lambda>(nursery_next, st).
     then_res (collect_nursery_scan E nursery_next st) (\<lambda>st.
     then_res (finish_gray_stack E (nursery_start E) nursery_next GENERATION_NURSERY st) (\<lambda>st.
     collect_nursery_reclaim E st)))"

definition collect_nursery :: "'x env \<Rightarrow> mword \<Rightarrow> 'x gc_state \<Rightarrow> (error + bool \<times> 'x gc_state) option" where
  "collect_nursery E requested_size st =
     (if disable_minor_collections st then Some (Inr (True, st))
      else
        then_res (collect_nursery_body E st) (\<lambda>st.
        let needs_major = (need_major_collection E 0 st \<or> objects_pinned st \<noteq> 0);
            st = st\<lparr>current_collection_generation := - 1\<rparr>;
            st = st\<lparr>objects_pinned := 0\<rparr>
        in Some (Inr (needs_major, st))))"

section \<open>Kinds of external calls and an example configuration\<close>






text \<open>
  A small configuration on which the functions can be run: a 4 MB nursery, sections of
  1 MB, twenty major sections, a soft heap limit of 32 MB, no bridge processing. The first
  call of \<^verbatim>\<open>finalize_in_range\<close> finds one finalizable object and makes it gray; the
  ephemeron pass marks nothing.
\<close>

definition example_env :: "unit env" where
  "example_env = \<lparr>DEFAULT_NURSERY_SIZE = 4194304, section_size = 1048576, nursery_start = 0x100000,
     nursery_end = 0x500000, gray_queue_is_distributed = False,
     double_ratio = (\<lambda>_ _ _. 0x7fffffff), get_num_major_sections = (\<lambda>_. 20),
     need_bridge_processing = (\<lambda>_. False), nursery_alloc_get_upper_alloc_bound = (\<lambda>_. 0x480000),
     distribute_gray_queue_is_empty = (\<lambda>_. True), provided = (\<lambda>_. True),
     run = (\<lambda>c st. case c of
        Finalize_in_range _ _ _ _ \<Rightarrow>
          (0, if num_ready_finalizers st = 0
              then st\<lparr>num_ready_finalizers := 1, gray_queue := [0x100010]\<rparr> else st)
      | Mark_ephemerons_in_range _ _ _ \<Rightarrow> (1, st)
      | Build_nursery_fragments \<Rightarrow> (0x3f0000, st)
      | _ \<Rightarrow> (0, st))\<rparr>"

definition example_state :: "unit gc_state" where
  "example_state = \<lparr>max_heap_size = - 1, soft_heap_limit = 33554432, nursery_size = 4194304,
     allocated_heap = 0, objects_pinned = 0, bytes_pinned_from_failed_allocation = 0,
     minor_collection_allowance = 16777216, minor_collection_sections_alloced = 0,
     need_calculate_minor_collection_allowance = True,
     last_collection_old_num_major_sections = 0, last_collection_los_memory_usage = 0,
     last_collection_old_los_memory_usage = 0, last_collection_los_memory_alloced = 0,
     los_memory_usage = 0, have_swept = True, disable_minor_collections = False,
     nursery_collection_is_parallel = False, major_is_parallel = False, xdomain_checks = False,
     consistency_check_at_minor_collection = False, heap_dump_file = False,
     current_collection_generation = - 1, degraded_mode = 0, gc_collections0 = 0,
     stat_minor_gcs = 0, minor_gc_count = 0, num_ready_finalizers = 0, fin_ready_list = 0,
     critical_fin_list = 0, nursery_section_size = 0x400000, nursery_section_next_data = 0,
     gray_queue = [], trace = [], ext = ()\<rparr>"


definition disabled_state :: "unit gc_state" where
  "disabled_state = example_state\<lparr>disable_minor_collections := True\<rparr>"

section \<open>Write barriers\<close>

text \<open>
  The barrier entry points for single slots (\<^verbatim>\<open>mono_gc_wbarrier_set_field\<close>,
  \<^verbatim>\<open>mono_gc_wbarrier_set_arrayref\<close>, \<^verbatim>\<open>mono_gc_wbarrier_generic_nostore\<close>,
  \<^verbatim>\<open>mono_gc_wbarrier_generic_store\<close>) write to memory themselves (\<open>Store\<close>) or hand the
  work to the remembered-set implementation through \<^verbatim>\<open>remset.wbarrier_*\<close>; the
  \<open>barrier_trace\<close> keeps the order in which this happens. \<^verbatim>\<open>ptr_in_nursery\<close> is a macro
  of a header and stays a parameter; \<^verbatim>\<open>ptr_on_stack\<close> compares with the address of a
  local variable (\<open>stack_start\<close>) and the end of the thread's stack. What the remembered
  set does with a call is given by the environment.
\<close>

datatype barrier_event =
    Store mword mword
  | Wbarrier_set_field mword mword mword
  | Wbarrier_set_arrayref mword mword mword
  | Wbarrier_generic_nostore mword

record 'r barrier_state =
  memory :: "mword \<Rightarrow> mword"
  barrier_trace :: "barrier_event list"
  remset_data :: 'r

record 'r barrier_env =
  ptr_in_nursery :: "mword \<Rightarrow> bool"
  stack_start :: mword
  stack_end :: mword
  remset :: "barrier_event \<Rightarrow> 'r barrier_state \<Rightarrow> 'r barrier_state"

definition ptr_on_stack :: "'r barrier_env \<Rightarrow> mword \<Rightarrow> bool" where
  "ptr_on_stack E ptr = (stack_start E \<le> ptr \<and> ptr < stack_end E)"

definition store_slot :: "mword \<Rightarrow> mword \<Rightarrow> 'r barrier_state \<Rightarrow> 'r barrier_state" where
  "store_slot ptr v st =
     st\<lparr>memory := (memory st)(ptr := v), barrier_trace := barrier_trace st @ [Store ptr v]\<rparr>"

definition remset_call :: "'r barrier_env \<Rightarrow> barrier_event \<Rightarrow> 'r barrier_state \<Rightarrow> 'r barrier_state" where
  "remset_call E c st = (remset E c st)\<lparr>barrier_trace := barrier_trace st @ [c]\<rparr>"

definition mono_gc_wbarrier_set_field ::
  "'r barrier_env \<Rightarrow> mword \<Rightarrow> mword \<Rightarrow> mword \<Rightarrow> 'r barrier_state \<Rightarrow> 'r barrier_state" where
  "mono_gc_wbarrier_set_field E obj field_ptr v st =
     (if ptr_in_nursery E field_ptr then store_slot field_ptr v st
      else remset_call E (Wbarrier_set_field obj field_ptr v) st)"

definition mono_gc_wbarrier_set_arrayref ::
  "'r barrier_env \<Rightarrow> mword \<Rightarrow> mword \<Rightarrow> mword \<Rightarrow> 'r barrier_state \<Rightarrow> 'r barrier_state" where
  "mono_gc_wbarrier_set_arrayref E arr slot_ptr v st =
     (if ptr_in_nursery E slot_ptr then store_slot slot_ptr v st
      else remset_call E (Wbarrier_set_arrayref arr slot_ptr v) st)"

definition mono_gc_wbarrier_generic_nostore ::
  "'r barrier_env \<Rightarrow> mword \<Rightarrow> 'r barrier_state \<Rightarrow> 'r barrier_state" where
  "mono_gc_wbarrier_generic_nostore E ptr st =
     (if ptr_in_nursery E ptr \<or> ptr_on_stack E ptr \<or> \<not> ptr_in_nursery E (memory st ptr) then st
      else remset_call E (Wbarrier_generic_nostore ptr) st)"

definition mono_gc_wbarrier_generic_store ::
  "'r barrier_env \<Rightarrow> mword \<Rightarrow> mword \<Rightarrow> 'r barrier_state \<Rightarrow> 'r barrier_state" where
  "mono_gc_wbarrier_generic_store E ptr v st =
     (let st = store_slot ptr v st
      in if ptr_in_nursery E v then mono_gc_wbarrier_generic_nostore E ptr st else st)"

definition example_barrier_env :: "mword list barrier_env" where
  "example_barrier_env =
     \<lparr>ptr_in_nursery = (\<lambda>p. 0x100000 \<le> p \<and> p < 0x500000),
      stack_start = 0x7000, stack_end = 0x8000,
      remset = (\<lambda>c st. case c of
                  Wbarrier_generic_nostore p \<Rightarrow> st\<lparr>remset_data := p # remset_data st\<rparr>
                | _ \<Rightarrow> st)\<rparr>"

definition example_barrier_state :: "mword list barrier_state" where
  "example_barrier_state = \<lparr>memory = (\<lambda>_. 0), barrier_trace = [], remset_data = []\<rparr>"


section \<open>Pinning objects from sorted addresses\<close>

text \<open>
  \<^verbatim>\<open>pin_objects_from_addresses\<close>. Addresses are natural numbers (pointer arithmetic that
  leaves the address space is undefined in C) and \<^verbatim>\<open>NULL\<close> is 0.
  \<^verbatim>\<open>ALLOC_ALIGN\<close> and \<^verbatim>\<open>SCAN_START_SIZE\<close> come from a header and are parameters;
  \<^verbatim>\<open>ALIGN_UP\<close> rounds up to a multiple of \<^verbatim>\<open>ALLOC_ALIGN\<close> (the macro masks the low
  bits, the same for a power of two). The heap is the memory as
  \<^verbatim>\<open>mono_sgen_nursery_allocator_prepare_for_pinning\<close> leaves it: \<open>word_at\<close> gives the
  word stored at an address (the first word of an object is its vtable word, the second its
  \<^verbatim>\<open>synchronisation\<close> field, \<open>-1\<close> in the placeholder that starts a nursery fragment),
  \<open>object_size\<close> is \<^verbatim>\<open>safe_object_get_size\<close>. Pinning sets a tag bit in the vtable word,
  which changes neither whether that word is zero nor the size, so the function reads the
  same heap throughout; the objects it pins are listed in \<open>pinned\<close>, in the order of the
  calls of \<^verbatim>\<open>pin_object\<close>. The gray queue is a stack, the head of the list its top.

  \<open>addresses\<close> is the array between \<^verbatim>\<open>start\<close> and \<^verbatim>\<open>end\<close>;
  \<^verbatim>\<open>definitely_pinned\<close> points to the same array, so the writes through it go to
  \<open>addresses\<close> as well. \<open>scan_start_before\<close> is the loop
  \<^verbatim>\<open>while (idx) { --idx; ... }\<close>, \<open>find_search_start\<close> the code from the computation
  of \<^verbatim>\<open>idx\<close> to the inner loop, \<open>pin_walk\<close> the inner \<^verbatim>\<open>do ... while\<close> loop (it
  need not end when an object has size 0), \<open>pin_candidate\<close> the body of the outer loop
  and \<open>pin_loop\<close> the outer loop over the \<open>n\<close> entries of the array. The only caller,
  \<^verbatim>\<open>mono_sgen_pin_objects_in_section\<close>, passes \<^verbatim>\<open>section->data\<close> and
  \<^verbatim>\<open>section->next_data\<close> as \<open>start_nursery\<close> and \<open>end_nursery\<close>.
\<close>

record layout =
  ALLOC_ALIGN :: nat
  SCAN_START_SIZE :: nat

definition sizeof_gpointer :: nat where "sizeof_gpointer = 8"

definition ALIGN_UP :: "layout \<Rightarrow> nat \<Rightarrow> nat" where
  "ALIGN_UP C x = ((x + (ALLOC_ALIGN C - 1)) div ALLOC_ALIGN C) * ALLOC_ALIGN C"

record heap =
  word_at :: "nat \<Rightarrow> mword"
  object_size :: "nat \<Rightarrow> nat"

record GCMemSection =
  data :: nat
  next_data :: nat
  num_scan_start :: nat
  scan_starts :: "nat \<Rightarrow> nat"

record pin_state =
  addresses :: "nat list"
  pinned :: "nat list"
  gray_objects :: "nat list"
  stat_pinned_objects :: nat

record pin_locals =
  last :: nat
  count :: nat
  last_obj :: nat
  last_obj_size :: nat

fun scan_start_before :: "(nat \<Rightarrow> nat) \<Rightarrow> nat \<Rightarrow> nat \<Rightarrow> nat \<Rightarrow> nat" where
  "scan_start_before starts addr 0 search_start = search_start"
| "scan_start_before starts addr (Suc idx) search_start =
     (let search_start = starts idx
      in if search_start \<noteq> 0 \<and> search_start \<le> addr then search_start
         else scan_start_before starts addr idx search_start)"

definition scan_start_index :: "layout \<Rightarrow> GCMemSection \<Rightarrow> nat \<Rightarrow> int" where
  "scan_start_index C section addr =
     (let diff = int addr - int (data section)
      in if diff < 0 then - ((- diff) div int (SCAN_START_SIZE C))
         else diff div int (SCAN_START_SIZE C))"

definition find_search_start :: "layout \<Rightarrow> GCMemSection \<Rightarrow> nat \<Rightarrow> nat \<Rightarrow> pin_locals \<Rightarrow> error + nat" where
  "find_search_start C section start_nursery addr l =
     (let idx = scan_start_index C section addr in
      if \<not> idx < int (num_scan_start section) then Inl Assertion_failed
      else if idx < 0 then Inl Invalid_read
      else
        (let search_start = scan_starts section (nat idx);
             search_start =
               (if search_start = 0 \<or> addr < search_start then
                  (let search_start =
                         scan_start_before (scan_starts section) addr (nat idx) search_start
                   in if search_start = 0 \<or> addr < search_start then start_nursery
                      else search_start)
                else search_start);
             search_start =
               (if search_start < last_obj l then last_obj l + last_obj_size l else search_start)
         in Inr search_start))"

partial_function (option) pin_walk ::
  "layout \<Rightarrow> heap \<Rightarrow> nat \<Rightarrow> nat \<Rightarrow> nat \<Rightarrow> nat \<Rightarrow> (nat option \<times> nat \<times> nat) option" where
  "pin_walk C H addr search_start lobj lsize =
     (if word_at H search_start = 0 then
        (let search_start = ALIGN_UP C (search_start + sizeof_gpointer)
         in if search_start \<le> addr then pin_walk C H addr search_start lobj lsize
            else Some (None, lobj, lsize))
      else
        (let lobj = search_start;
             lsize = ALIGN_UP C (object_size H search_start)
         in if word_at H (lobj + sizeof_gpointer) \<noteq> - 1 \<and>
               search_start \<le> addr \<and> addr < lobj + lsize
            then Some (Some search_start, lobj, lsize)
            else (let search_start = search_start + lsize
                  in if search_start \<le> addr then pin_walk C H addr search_start lobj lsize
                     else Some (None, lobj, lsize))))"

declare pin_walk.simps [code]

definition pin_candidate ::
  "layout \<Rightarrow> heap \<Rightarrow> GCMemSection \<Rightarrow> nat \<Rightarrow> nat \<Rightarrow> nat \<Rightarrow> pin_locals \<times> pin_state
     \<Rightarrow> (error + pin_locals \<times> pin_state) option" where
  "pin_candidate C H section start_nursery end_nursery addr ls =
     (case ls of (l, st) \<Rightarrow>
       if addr \<noteq> last l \<and> start_nursery \<le> addr \<and> addr < end_nursery then
         (if last_obj l \<le> addr \<and> addr < last_obj l + last_obj_size l then Some (Inr (l, st))
          else
            (case find_search_start C section start_nursery addr l of
               Inl e \<Rightarrow> Some (Inl e)
             | Inr search_start \<Rightarrow>
                 (case pin_walk C H addr search_start (last_obj l) (last_obj_size l) of
                    None \<Rightarrow> None
                  | Some (None, lobj, lsize) \<Rightarrow>
                      Some (Inr (l\<lparr>last := addr, last_obj := lobj, last_obj_size := lsize\<rparr>, st))
                  | Some (Some obj, lobj, lsize) \<Rightarrow>
                      Some (Inr (l\<lparr>last := addr, count := count l + 1,
                                   last_obj := lobj, last_obj_size := lsize\<rparr>,
                                 st\<lparr>pinned := pinned st @ [obj],
                                    gray_objects := obj # gray_objects st,
                                    addresses := (addresses st)[count l := obj]\<rparr>)))))
       else Some (Inr (l, st)))"

function pin_loop ::
  "layout \<Rightarrow> heap \<Rightarrow> GCMemSection \<Rightarrow> nat \<Rightarrow> nat \<Rightarrow> nat \<Rightarrow> nat \<Rightarrow> pin_locals \<times> pin_state
     \<Rightarrow> (error + pin_locals \<times> pin_state) option" where
  "pin_loop C H section start_nursery end_nursery n i ls =
     (if i < n then
        (case pin_candidate C H section start_nursery end_nursery (addresses (snd ls) ! i) ls of
           None \<Rightarrow> None
         | Some (Inl e) \<Rightarrow> Some (Inl e)
         | Some (Inr ls') \<Rightarrow> pin_loop C H section start_nursery end_nursery n (Suc i) ls')
      else Some (Inr ls))"
  by pat_completeness auto
termination
  by (relation "measure (\<lambda>(C, H, section, start_nursery, end_nursery, n, i, ls). n - i)") auto

declare pin_loop.simps [simp del]

definition pin_objects_from_addresses ::
  "layout \<Rightarrow> heap \<Rightarrow> GCMemSection \<Rightarrow> nat \<Rightarrow> nat \<Rightarrow> pin_state \<Rightarrow> (error + nat \<times> pin_state) option" where
  "pin_objects_from_addresses C H section start_nursery end_nursery st =
     (case pin_loop C H section start_nursery end_nursery (length (addresses st)) 0
             (\<lparr>last = 0, count = 0, last_obj = 0, last_obj_size = 0\<rparr>, st) of
        None \<Rightarrow> None
      | Some (Inl e) \<Rightarrow> Some (Inl e)
      | Some (Inr (l, st')) \<Rightarrow>
          Some (Inr (count l, st'\<lparr>stat_pinned_objects := stat_pinned_objects st' + count l\<rparr>)))"


text \<open>
  An example: a section of 256 bytes at address 1024 with objects at 1024 (24 bytes),
  1048 (30 bytes, 32 aligned) and 1160 (40 bytes), a fragment placeholder at 1096
  (64 bytes) and zeroed memory elsewhere.
\<close>

definition example_layout :: layout where
  "example_layout = \<lparr>ALLOC_ALIGN = 8, SCAN_START_SIZE = 64\<rparr>"

definition example_heap :: heap where
  "example_heap =
     \<lparr>word_at = (\<lambda>_. 0)(1024 := 0xABC0, 1048 := 0xABC0, 1096 := 0xF111, 1104 := - 1,
                           1160 := 0xABC0),
      object_size = (\<lambda>_. 0)(1024 := 24, 1048 := 30, 1096 := 64, 1160 := 40)\<rparr>"

definition example_section :: GCMemSection where
  "example_section =
     \<lparr>data = 1024, next_data = 1280, num_scan_start = 4,
      scan_starts = (\<lambda>_. 0)(0 := 1024, 1 := 1096, 2 := 1160)\<rparr>"

definition example_pin_state :: pin_state where
  "example_pin_state =
     \<lparr>addresses = [1032, 1040, 1050, 1050, 1085, 1100, 1160, 1199, 1210],
      pinned = [], gray_objects = [], stat_pinned_objects = 0\<rparr>"

text \<open>
  The invariant of the outer loop at index \<open>i\<close>: the objects pinned so far are the first
  \<open>count\<close> entries of the array, in increasing order and none beyond \<open>last_obj\<close>; the
  entries from \<open>i\<close> on are still the candidates; \<open>last_obj_size\<close> is the aligned size of
  \<open>last_obj\<close> once an object has been looked at.
\<close>

definition pin_inv ::
  "layout \<Rightarrow> heap \<Rightarrow> pin_state \<Rightarrow> nat \<Rightarrow> pin_locals \<times> pin_state \<Rightarrow> bool" where
  "pin_inv C H st0 i ls =
     (case ls of (l, st) \<Rightarrow>
        \<exists>new. pinned st = pinned st0 @ new \<and>
              gray_objects st = rev new @ gray_objects st0 \<and>
              stat_pinned_objects st = stat_pinned_objects st0 \<and>
              count l = length new \<and> count l \<le> i \<and>
              length (addresses st) = length (addresses st0) \<and>
              take (count l) (addresses st) = new \<and>
              drop i (addresses st) = drop i (addresses st0) \<and>
              sorted_wrt (<) new \<and> (\<forall>x \<in> set new. x \<le> last_obj l) \<and>
              ((last_obj l = 0 \<and> last_obj_size l = 0 \<and> new = []) \<or>
               last_obj_size l = ALIGN_UP C (object_size H (last_obj l))))"


section \<open>The resolution of a candidate, as specified\<close>




















section \<open>Properties of the root tables\<close>

lemma register_root_existing_None:
  "\<forall>t \<in> set ts. roots_hash st t start = None \<Longrightarrow>
   register_root_existing ts start sz descr st = None"
  by (induction ts) auto

lemma deregister_root_loop_size_absent:
  "\<forall>t \<in> set ts. roots_hash st t addr = None \<Longrightarrow>
   deregister_root_loop ts addr st = st"
  by (induction ts arbitrary: st) auto

lemma register_root_existing_first:
  assumes "List.find (\<lambda>t. roots_hash st t start \<noteq> None) ts = Some t"
      and "roots_hash st t start = Some root"
  shows "register_root_existing ts start sz descr st =
     Some (if (root_desc root \<noteq> 0 \<and> descr \<noteq> 0) \<or> (root_desc root = 0 \<and> descr = 0)
      then Inr (st\<lparr>roots_hash := (roots_hash st)
                                 (t := (roots_hash st t)
                                    (start \<mapsto> \<lparr>end_root = start + sz, root_desc = descr\<rparr>)),
                               roots_size := roots_size st + sz - (end_root root - start)\<rparr>)
      else Inl Assertion_failed)"
  using assms
  by (induction ts) (auto split: if_splits option.splits simp: Let_def)

lemma registered_in_complete:
  assumes "roots_hash st u start \<noteq> None"
  shows "\<exists>t. registered_in st start = Some t \<and> roots_hash st t start \<noteq> None"
proof -
  have "u \<in> set root_types" by (cases u) (simp_all add: root_types_def)
  with assms have "List.find (\<lambda>t. roots_hash st t start \<noteq> None) root_types \<noteq> None"
    by (auto simp: find_None_iff)
  then obtain t where t: "List.find (\<lambda>t. roots_hash st t start \<noteq> None) root_types = Some t"
    by auto
  then have "roots_hash st t start \<noteq> None" by (auto simp: find_Some_iff)
  with t show ?thesis by (simp add: registered_in_def)
qed

text \<open>
  C6. For a start address \<open>r\<close> that no table holds, any size \<open>s\<close>, descriptor \<open>d\<close>
  and root type, registering the root succeeds and deregistering \<open>r\<close> afterwards brings
  \<^verbatim>\<open>roots_size\<close> back to its value before the two calls (the tables are back as well).
\<close>

theorem register_then_deregister_roots_size:
  assumes "\<forall>t. roots_hash st t r = None"
  shows "\<exists>st1. mono_gc_register_root_inner r s d rt st = Inr st1 \<and>
               roots_size (mono_gc_deregister_root r st1) = roots_size st \<and>
               mono_gc_deregister_root r st1 = st"
proof -
  have none: "register_root_existing root_types r s d st = None"
    using assms by (intro register_root_existing_None) simp
  have idem: "\<And>t. (roots_hash st t)(r := None) = roots_hash st t"
    using assms by (simp add: fun_upd_idem)
  show ?thesis using assms
    by (cases rt)
       (simp_all add: mono_gc_register_root_inner_def none mono_gc_deregister_root_def
          root_types_def idem)
qed

theorem register_then_deregister_roots_size_witness:
  "(\<forall>t. roots_hash \<lparr>roots_hash = (\<lambda>_. Map.empty)
              (ROOT_TYPE_PINNED := [8192 \<mapsto> \<lparr>end_root = 8200, root_desc = 0\<rparr>]),
            roots_size = 8\<rparr> t 4096 = None) \<and>
   (\<exists>st1. mono_gc_register_root_inner 4096 64 1 ROOT_TYPE_NORMAL
            \<lparr>roots_hash = (\<lambda>_. Map.empty)
              (ROOT_TYPE_PINNED := [8192 \<mapsto> \<lparr>end_root = 8200, root_desc = 0\<rparr>]),
             roots_size = 8\<rparr> = Inr st1 \<and>
          roots_size (mono_gc_deregister_root 4096 st1) = 8)"
proof -
  let ?st = "\<lparr>roots_hash = (\<lambda>_. Map.empty)
              (ROOT_TYPE_PINNED := [8192 \<mapsto> \<lparr>end_root = 8200, root_desc = 0\<rparr>]),
            roots_size = (8::mword)\<rparr>"
  have h: "\<forall>t. roots_hash ?st t 4096 = None" by simp
  from register_then_deregister_roots_size [OF h, of 64 1 ROOT_TYPE_NORMAL]
  show ?thesis using h by auto
qed

text \<open>
  C7. Registering a root whose start address is already registered, in whichever of the
  three tables, whatever root type the call names: when the old record and the new
  registration are both descriptor-bearing or both descriptor-free, the call succeeds,
  the record found under \<open>start\<close> now ends at \<open>start + sz\<close> and carries the new
  descriptor, no other entry of any table changes and no table gains or loses a key, and
  \<^verbatim>\<open>roots_size\<close> grows by the new size and shrinks by the old one. Otherwise the
  assertion fails.
\<close>

theorem reregister_root_updates_in_place:
  assumes "registered_in st start = Some t"
      and "roots_hash st t start = Some root"
  shows "((root_desc root \<noteq> 0) = (descr \<noteq> 0) \<longrightarrow>
            (\<exists>st'. mono_gc_register_root_inner start sz descr rt st = Inr st' \<and>
                   roots_hash st' t start = Some \<lparr>end_root = start + sz, root_desc = descr\<rparr> \<and>
                   (\<forall>u a. (u, a) \<noteq> (t, start) \<longrightarrow> roots_hash st' u a = roots_hash st u a) \<and>
                   (\<forall>u. dom (roots_hash st' u) = dom (roots_hash st u)) \<and>
                   roots_size st' = roots_size st + sz - (end_root root - start))) \<and>
         ((root_desc root \<noteq> 0) \<noteq> (descr \<noteq> 0) \<longrightarrow>
            mono_gc_register_root_inner start sz descr rt st = Inl Assertion_failed)"
proof -
  have ex: "register_root_existing root_types start sz descr st =
     Some (if (root_desc root \<noteq> 0 \<and> descr \<noteq> 0) \<or> (root_desc root = 0 \<and> descr = 0)
      then Inr (st\<lparr>roots_hash := (roots_hash st)
                                 (t := (roots_hash st t)
                                    (start \<mapsto> \<lparr>end_root = start + sz, root_desc = descr\<rparr>)),
                               roots_size := roots_size st + sz - (end_root root - start)\<rparr>)
      else Inl Assertion_failed)"
    using assms by (intro register_root_existing_first) (simp_all add: registered_in_def)
  have dom_eq: "insert start (dom (roots_hash st t)) = dom (roots_hash st t)"
    using assms(2) by auto
  show ?thesis
    using assms(2) by (auto simp: mono_gc_register_root_inner_def ex dom_eq)
qed

theorem reregister_root_updates_in_place_witness:
  "registered_in \<lparr>roots_hash = (\<lambda>_. Map.empty)
        (ROOT_TYPE_WBARRIER := [4096 \<mapsto> \<lparr>end_root = 4160, root_desc = 1\<rparr>]),
      roots_size = 64\<rparr> 4096 = Some ROOT_TYPE_WBARRIER \<and>
   (\<exists>st'. mono_gc_register_root_inner 4096 128 3 ROOT_TYPE_NORMAL
        \<lparr>roots_hash = (\<lambda>_. Map.empty)
          (ROOT_TYPE_WBARRIER := [4096 \<mapsto> \<lparr>end_root = 4160, root_desc = 1\<rparr>]),
         roots_size = 64\<rparr> = Inr st' \<and>
       roots_hash st' ROOT_TYPE_NORMAL 4096 = None \<and>
       roots_hash st' ROOT_TYPE_WBARRIER 4096 = Some \<lparr>end_root = 4224, root_desc = 3\<rparr> \<and>
       roots_size st' = 128) \<and>
   mono_gc_register_root_inner 4096 128 0 ROOT_TYPE_PINNED
        \<lparr>roots_hash = (\<lambda>_. Map.empty)
          (ROOT_TYPE_WBARRIER := [4096 \<mapsto> \<lparr>end_root = 4160, root_desc = 1\<rparr>]),
         roots_size = 64\<rparr> = Inl Assertion_failed"
proof -
  let ?st = "\<lparr>roots_hash = (\<lambda>_. Map.empty)
        (ROOT_TYPE_WBARRIER := [4096 \<mapsto> \<lparr>end_root = 4160, root_desc = (1::mword)\<rparr>]),
      roots_size = (64::mword)\<rparr>"
  have r: "registered_in ?st 4096 = Some ROOT_TYPE_WBARRIER"
    by (simp add: registered_in_def root_types_def)
  have h: "roots_hash ?st ROOT_TYPE_WBARRIER 4096 = Some \<lparr>end_root = 4160, root_desc = 1\<rparr>"
    by simp
  from reregister_root_updates_in_place [OF r h, of 3 128 ROOT_TYPE_NORMAL]
  have a: "\<exists>st'. mono_gc_register_root_inner 4096 128 3 ROOT_TYPE_NORMAL ?st = Inr st' \<and>
       roots_hash st' ROOT_TYPE_NORMAL 4096 = None \<and>
       roots_hash st' ROOT_TYPE_WBARRIER 4096 = Some \<lparr>end_root = 4224, root_desc = 3\<rparr> \<and>
       roots_size st' = 128"
    by auto
  from reregister_root_updates_in_place [OF r h, of 0 128 ROOT_TYPE_PINNED]
  have b: "mono_gc_register_root_inner 4096 128 0 ROOT_TYPE_PINNED ?st = Inl Assertion_failed"
    by simp
  from r a b show ?thesis by blast
qed

section \<open>Properties of the heap size limits\<close>

lemma sint_uint_nonneg: "0 \<le> sint (w::64 word) \<Longrightarrow> sint w = uint w"
proof -
  assume nn: "0 \<le> sint w"
  have "sint w < 2 ^ 63" using sint_lt [of w] by simp
  then have "sint w < 2 ^ 64" by simp
  with nn have "take_bit 64 (sint w) = sint w" by (simp add: take_bit_int_eq_self)
  then show ?thesis using uint_sint [of w] by simp
qed

text \<open>
  C8, amended. For a max-heap-size that is not 0: the soft limit that reaches the
  function is 0 (absent) or positive (the option parser exits on anything else), and four
  nursery sizes fit a machine word. Then a max-heap-size below four times the nursery
  size, or below the soft heap limit, ends the process with a fatal message.
\<close>

theorem init_heap_size_limits_fatal:
  assumes "max_heap \<noteq> 0" and "0 \<le>s soft_limit"
      and "4 * unat (nursery_size st) < 2 ^ 64"
      and "sint max_heap < 4 * int (unat (nursery_size st)) \<or> sint max_heap < sint soft_limit"
  shows "\<exists>msg. init_heap_size_limits max_heap soft_limit st = Inl (Fatal_exit msg)"
proof (cases "max_heap <s soft_limit")
  case True
  then show ?thesis using assms(1) by (simp add: init_heap_size_limits_def Let_def)
next
  case False
  from False have ge: "sint soft_limit \<le> sint max_heap" by (simp add: word_sless_alt)
  with assms(2) have nonneg: "0 \<le> sint max_heap" by (simp add: word_sle_eq)
  then have su: "sint max_heap = uint max_heap" by (rule sint_uint_nonneg)
  from ge assms(4) have "sint max_heap < 4 * int (unat (nursery_size st))" by linarith
  with su have "int (unat max_heap) < int (4 * unat (nursery_size st))"
    by (simp only: uint_nat of_nat_mult of_nat_numeral)
  then have lt: "unat max_heap < 4 * unat (nursery_size st)" by (simp only: of_nat_less_iff)
  have "unat (nursery_size st) * unat (4::64 word) < 2 ^ LENGTH(64)"
    using assms(3) by simp
  then have "unat (nursery_size st * 4) = unat (nursery_size st) * unat (4::64 word)"
    by (simp only: unat_mult_lem)
  then have "unat (nursery_size st * 4) = 4 * unat (nursery_size st)" by simp
  with lt have "max_heap < nursery_size st * 4" by (simp only: word_less_nat_alt)
  then show ?thesis using assms(1) False by (simp add: init_heap_size_limits_def Let_def)
qed

theorem init_heap_size_limits_fatal_witness:
  "(4096::64 word) \<noteq> 0 \<and> 0 \<le>s (0::64 word) \<and>
   4 * unat (nursery_size \<lparr>max_heap_size = - 1, soft_heap_limit = - 1, nursery_size = 4194304\<rparr>)
     < 2 ^ 64 \<and>
   sint (4096::64 word) < 4 * int (unat (nursery_size
      \<lparr>max_heap_size = - 1, soft_heap_limit = - 1, nursery_size = 4194304\<rparr>)) \<and>
   (\<exists>msg. init_heap_size_limits 4096 0
      \<lparr>max_heap_size = - 1, soft_heap_limit = - 1, nursery_size = 4194304\<rparr> = Inl (Fatal_exit msg))"
proof -
  let ?st = "\<lparr>max_heap_size = - 1, soft_heap_limit = - 1, nursery_size = (4194304::mword)\<rparr>"
  have a: "(4096::64 word) \<noteq> 0" by simp
  have b: "0 \<le>s (0::64 word)" by simp
  have c: "4 * unat (nursery_size ?st) < 2 ^ 64" by simp
  have d: "sint (4096::64 word) < 4 * int (unat (nursery_size ?st))" by simp
  from init_heap_size_limits_fatal [OF a b c disjI1 [OF d]] a b c d
  show ?thesis by blast
qed

text \<open>
  C8 as stated fails for \<^verbatim>\<open>max-heap-size=0\<close>: the option is accepted (0 is a multiple
  of the page size), 0 is below four nursery sizes and below the soft limit of 32 MB, and
  \<^verbatim>\<open>init_heap_size_limits\<close> returns without a fatal error, leaving the heap unlimited.
\<close>

theorem init_heap_size_limits_zero_counterexample:
  "max_heap_size_option 4096 0 = Inr 0 \<and>
   init_heap_size_limits 0 33554432
      \<lparr>max_heap_size = - 1, soft_heap_limit = - 1, nursery_size = 4194304\<rparr>
     = Inr \<lparr>max_heap_size = - 1, soft_heap_limit = 33554432, nursery_size = 4194304\<rparr>"
  by (simp add: max_heap_size_option_def init_heap_size_limits_def)

section \<open>Properties of the gray-stack finisher\<close>


lemma trace_exec [simp]: "trace (exec E c st) = trace st @ [c]"
  by (simp add: exec_def call_def split: prod.splits)

lemma trace_exec_if [simp]: "trace (exec_if b E c st) = trace st @ (if b then [c] else [])"
  by (simp add: exec_if_def)



















section \<open>Properties of the allowance and of the nursery collection\<close>

lemma calculate_allowance_bounds:
  assumes "unat (new_heap_size E n st) + unat (allowance_upper E n st) < 2 ^ 64"
      and "unat (new_heap_size E n st) + unat (MIN_MINOR_COLLECTION_ALLOWANCE E) < 2 ^ 64"
  shows "MIN_MINOR_COLLECTION_ALLOWANCE E \<le> calculate_allowance E n st \<and>
         calculate_allowance E n st
           \<le> max (MIN_MINOR_COLLECTION_ALLOWANCE E) (allowance_upper E n st) \<and>
         (calculate_allowance E n st = MIN_MINOR_COLLECTION_ALLOWANCE E \<or>
          unat (new_heap_size E n st) + unat (calculate_allowance E n st)
            \<le> unat (soft_heap_limit st))"
proof -
  define L where "L = MIN_MINOR_COLLECTION_ALLOWANCE E"
  define U where "U = allowance_upper E n st"
  define N where "N = new_heap_size E n st"
  define S where "S = soft_heap_limit st"
  define T :: mword where "T = scast (allowance_target E n st)"
  have r0: "calculate_allowance E n st =
     (let m = (if T < U then T else U); a = (if L < m then m else L)
      in if S < N + a then (if S < N then L else (if L < S - N then S - N else L)) else a)"
    by (simp add: calculate_allowance_def Let_def L_def U_def N_def S_def T_def)
  define m where "m = (if T < U then T else U)"
  define a where "a = (if L < m then m else L)"
  have mU: "m \<le> U" by (auto simp: m_def)
  have aL: "L \<le> a" by (auto simp: a_def)
  have aLU: "a \<le> max L U" using mU by (auto simp: a_def max_def)
  then have "unat a \<le> unat (max L U)" by (simp add: word_le_nat_alt)
  then have "unat a \<le> max (unat L) (unat U)" by (auto simp: max_def word_le_nat_alt split: if_splits)
  with assms have "unat N + unat a < 2 ^ LENGTH(64)"
    by (auto simp: max_def L_def U_def N_def split: if_splits)
  then have na: "unat (N + a) = unat N + unat a" by (simp only: unat_add_lem)
  have r: "calculate_allowance E n st =
     (if S < N + a then (if S < N then L else (if L < S - N then S - N else L)) else a)"
    by (simp add: r0 m_def a_def Let_def)
  have "L \<le> calculate_allowance E n st \<and> calculate_allowance E n st \<le> max L U \<and>
         (calculate_allowance E n st = L \<or> unat N + unat (calculate_allowance E n st) \<le> unat S)"
  proof (cases "S < N + a")
    case False
    then have "unat N + unat a \<le> unat S" using na by (simp add: word_less_nat_alt)
    with False r aL aLU show ?thesis by simp
  next
    case True
    show ?thesis
    proof (cases "S < N")
      case sn: True
      with True r show ?thesis by simp
    next
      case sn: False
      then have ns: "N \<le> S" by simp
      then have sub: "unat (S - N) = unat S - unat N" by (simp add: unat_sub)
      from True na have "unat S < unat N + unat a" by (simp add: word_less_nat_alt)
      with ns sub have "unat (S - N) < unat a" by (simp add: word_le_nat_alt)
      then have lt: "S - N < a" by (simp add: word_less_nat_alt)
      show ?thesis
      proof (cases "L < S - N")
        case l: True
        with True sn r have e: "calculate_allowance E n st = S - N" by simp
        from ns sub have "unat N + unat (S - N) \<le> unat S" by (simp add: word_le_nat_alt)
        with e l lt aLU show ?thesis by auto
      next
        case l: False
        with True sn r show ?thesis by simp
      qed
    qed
  qed
  then show ?thesis by (simp add: L_def U_def N_def S_def)
qed

text \<open>
  C4, as the code has it. After a major collection (the allowance is marked for
  recalculation and the major collector has swept),
  \<^verbatim>\<open>try_calculate_minor_collection_allowance\<close> leaves an allowance that is at least
  \<^verbatim>\<open>MIN_MINOR_COLLECTION_ALLOWANCE\<close>, at most the larger of that minimum and
  \<^verbatim>\<open>num_major_sections * section_size + los_memory_usage\<close>, and that either is the
  minimum or keeps \<open>new_heap_size + allowance\<close> within the soft heap limit: the minimum wins
  over the soft limit. This needs the callback of the major collector to leave the allowance
  alone and the two sums not to wrap.
\<close>

theorem allowance_after_major_collection:
  assumes "need_calculate_minor_collection_allowance st" and "have_swept st"
      and "\<forall>s. minor_collection_allowance (snd (run E Have_computed_minor_collection_allowance s))
                = minor_collection_allowance s"
      and "unat (new_heap_size E (get_num_major_sections E st) st)
             + unat (allowance_upper E (get_num_major_sections E st) st) < 2 ^ 64"
      and "unat (new_heap_size E (get_num_major_sections E st) st)
             + unat (MIN_MINOR_COLLECTION_ALLOWANCE E) < 2 ^ 64"
  shows "\<exists>st'. try_calculate_minor_collection_allowance E overwrite st = Inr st' \<and>
           MIN_MINOR_COLLECTION_ALLOWANCE E \<le> minor_collection_allowance st' \<and>
           minor_collection_allowance st'
             \<le> max (MIN_MINOR_COLLECTION_ALLOWANCE E)
                   (allowance_upper E (get_num_major_sections E st) st) \<and>
           (minor_collection_allowance st' = MIN_MINOR_COLLECTION_ALLOWANCE E \<or>
            unat (new_heap_size E (get_num_major_sections E st) st)
              + unat (minor_collection_allowance st') \<le> unat (soft_heap_limit st))"
proof -
  let ?n = "get_num_major_sections E st"
  have fr: "minor_collection_allowance
              (exec_if b E Have_computed_minor_collection_allowance s)
            = minor_collection_allowance s" for b s
  proof -
    obtain r s' where rs: "run E Have_computed_minor_collection_allowance s = (r, s')"
      by (cases "run E Have_computed_minor_collection_allowance s")
    with assms(3) [rule_format, of s]
    have "minor_collection_allowance s' = minor_collection_allowance s" by simp
    with rs show ?thesis by (simp add: exec_if_def exec_def call_def)
  qed
  have "try_calculate_minor_collection_allowance E overwrite st =
     Inr ((exec_if (provided E Have_computed_minor_collection_allowance) E
             Have_computed_minor_collection_allowance
             (st\<lparr>minor_collection_allowance := calculate_allowance E ?n st\<rparr>))
          \<lparr>need_calculate_minor_collection_allowance := False\<rparr>)"
    using assms(1,2) by (simp add: try_calculate_minor_collection_allowance_def Let_def)
  moreover have "minor_collection_allowance
      ((exec_if (provided E Have_computed_minor_collection_allowance) E
             Have_computed_minor_collection_allowance
             (st\<lparr>minor_collection_allowance := calculate_allowance E ?n st\<rparr>))
          \<lparr>need_calculate_minor_collection_allowance := False\<rparr>) = calculate_allowance E ?n st"
    by (simp add: fr)
  ultimately show ?thesis
    using calculate_allowance_bounds [OF assms(4,5)] by simp
qed

theorem allowance_after_major_collection_witness:
  "need_calculate_minor_collection_allowance example_state \<and> have_swept example_state \<and>
   (\<exists>st'. try_calculate_minor_collection_allowance example_env True example_state = Inr st' \<and>
      MIN_MINOR_COLLECTION_ALLOWANCE example_env \<le> minor_collection_allowance st' \<and>
      minor_collection_allowance st'
        \<le> max (MIN_MINOR_COLLECTION_ALLOWANCE example_env) (allowance_upper example_env 20 example_state) \<and>
      minor_collection_allowance st' = MIN_MINOR_COLLECTION_ALLOWANCE example_env)"
proof -
  have n: "get_num_major_sections example_env example_state = 20"
    by (simp add: example_env_def)
  have a: "need_calculate_minor_collection_allowance example_state"
    and b: "have_swept example_state"
    by (simp_all add: example_state_def)
  have c: "\<forall>s. minor_collection_allowance
              (snd (run example_env Have_computed_minor_collection_allowance s))
            = minor_collection_allowance s"
    by (simp add: example_env_def)
  have d: "unat (new_heap_size example_env (get_num_major_sections example_env example_state)
                   example_state)
           + unat (allowance_upper example_env (get_num_major_sections example_env example_state)
                   example_state) < 2 ^ 64"
    by (simp add: example_env_def example_state_def new_heap_size_def allowance_upper_def)
  have e: "unat (new_heap_size example_env (get_num_major_sections example_env example_state)
                   example_state)
           + unat (MIN_MINOR_COLLECTION_ALLOWANCE example_env) < 2 ^ 64"
    by (simp add: example_env_def example_state_def new_heap_size_def
          MIN_MINOR_COLLECTION_ALLOWANCE_def)
  have f: "\<not> unat (new_heap_size example_env 20 example_state) + unat x
             \<le> unat (soft_heap_limit example_state)"
    if "MIN_MINOR_COLLECTION_ALLOWANCE example_env \<le> x" for x
  proof -
    from that have "unat (16777216 :: mword) \<le> unat x"
      by (simp add: word_le_nat_alt MIN_MINOR_COLLECTION_ALLOWANCE_def example_env_def)
    then show ?thesis
      by (simp add: example_env_def example_state_def new_heap_size_def)
  qed
  from allowance_after_major_collection [OF a b c d e, of True] n f a b
  show ?thesis by auto
qed

text \<open>
  The claim as stated fails on the example configuration: 20 MB of major sections under
  a soft limit of 32 MB leave 12 MB, but the allowance is the minimum of 16 MB, so the heap
  size plus the allowance is 36 MB.
\<close>

theorem allowance_exceeds_soft_limit_counterexample:
  "try_calculate_minor_collection_allowance example_env True example_state =
     Inr (example_state\<lparr>minor_collection_allowance := 16777216,
            trace := [Have_computed_minor_collection_allowance],
            need_calculate_minor_collection_allowance := False\<rparr>) \<and>
   new_heap_size example_env 20 example_state = 20971520 \<and>
   soft_heap_limit example_state = 33554432 \<and>
   \<not> (20971520 + 16777216 \<le> (33554432 :: nat)) \<and>
   \<not> ((16777216 :: mword) \<le> 33554432 - 20971520)"
  by (simp add: try_calculate_minor_collection_allowance_def calculate_allowance_def Let_def
        allowance_target_def example_env_def example_state_def exec_if_def exec_def call_def
        new_heap_size_def allowance_upper_def MIN_MINOR_COLLECTION_ALLOWANCE_def)

text \<open>
  C10. With \<^verbatim>\<open>disable_minor_collections\<close> set, \<^verbatim>\<open>collect_nursery\<close> returns true at
  once: no external call is made and the state it returns is the state it was given.
\<close>

theorem collect_nursery_disabled:
  assumes "disable_minor_collections st"
  shows "collect_nursery E requested_size st = Some (Inr (True, st))"
  using assms by (simp add: collect_nursery_def)

theorem collect_nursery_disabled_witness:
  "disable_minor_collections disabled_state \<and>
   collect_nursery example_env 4096 disabled_state = Some (Inr (True, disabled_state))"
proof -
  have d: "disable_minor_collections disabled_state"
    by (simp add: disabled_state_def)
  from collect_nursery_disabled [OF d] d show ?thesis by blast
qed





section \<open>Properties of the write barriers\<close>

text \<open>
  C5. \<^verbatim>\<open>mono_gc_wbarrier_generic_store\<close> on a slot outside the nursery and off the
  stack, storing a pointer into the nursery: the value is written into the slot first and
  the slot is handed to the remembered set afterwards.
\<close>

theorem wbarrier_generic_store_stores_first:
  "mono_gc_wbarrier_generic_store example_barrier_env 0x900000 0x100010 example_barrier_state =
     \<lparr>memory = (\<lambda>_. 0)(0x900000 := 0x100010),
      barrier_trace = [Store 0x900000 0x100010, Wbarrier_generic_nostore 0x900000],
      remset_data = [0x900000]\<rparr>"
  by (simp add: mono_gc_wbarrier_generic_store_def mono_gc_wbarrier_generic_nostore_def
        store_slot_def remset_call_def ptr_on_stack_def example_barrier_env_def
        example_barrier_state_def)

text \<open>For every slot and value the store is the first thing the function does.\<close>

lemma wbarrier_generic_store_trace:
  "\<exists>rest. barrier_trace (mono_gc_wbarrier_generic_store E ptr v st)
           = barrier_trace st @ Store ptr v # rest \<and>
          (rest = [] \<or> rest = [Wbarrier_generic_nostore ptr])"
  by (simp add: mono_gc_wbarrier_generic_store_def mono_gc_wbarrier_generic_nostore_def
        store_slot_def remset_call_def Let_def)


section \<open>Properties of pinning\<close>

lemma ALIGN_UP_ge:
  assumes "0 < ALLOC_ALIGN C"
  shows "x \<le> ALIGN_UP C x"
proof -
  let ?A = "ALLOC_ALIGN C"
  let ?y = "x + (?A - 1)"
  have e: "?y div ?A * ?A = ?y - ?y mod ?A" by (simp only: minus_mod_eq_div_mult)
  have "?y mod ?A < ?A" using assms by (rule mod_less_divisor)
  then have "x \<le> ?y - ?y mod ?A" by arith
  with e show ?thesis by (simp add: ALIGN_UP_def)
qed

lemma pin_walk_result:
  assumes "pin_walk C H addr s lobj lsize = Some y"
  shows "0 < ALLOC_ALIGN C \<longrightarrow>
         (case y of (r, lobj', lsize') \<Rightarrow>
            ((lobj' = lobj \<and> lsize' = lsize \<and> r = None) \<or>
             (s \<le> lobj' \<and> lsize' = ALIGN_UP C (object_size H lobj'))) \<and>
            (\<forall>obj. r = Some obj \<longrightarrow>
               obj = lobj' \<and> obj \<le> addr \<and> addr < obj + lsize'))"
proof (rule pin_walk.raw_induct [where P = "\<lambda>C H addr s lobj lsize y.
    0 < ALLOC_ALIGN C \<longrightarrow>
         (case y of (r, lobj', lsize') \<Rightarrow>
            ((lobj' = lobj \<and> lsize' = lsize \<and> r = None) \<or>
             (s \<le> lobj' \<and> lsize' = ALIGN_UP C (object_size H lobj'))) \<and>
            (\<forall>obj. r = Some obj \<longrightarrow>
               obj = lobj' \<and> obj \<le> addr \<and> addr < obj + lsize'))", OF _ assms], goal_cases)
  case (1 walk C H addr s lobj lsize y)
  show ?case
  proof
    assume A: "0 < ALLOC_ALIGN C"
    obtain r lobj' lsize' where y: "y = (r, lobj', lsize')" by (cases y)
    show "case y of (r, lobj', lsize') \<Rightarrow>
            ((lobj' = lobj \<and> lsize' = lsize \<and> r = None) \<or>
             (s \<le> lobj' \<and> lsize' = ALIGN_UP C (object_size H lobj'))) \<and>
            (\<forall>obj. r = Some obj \<longrightarrow>
               obj = lobj' \<and> obj \<le> addr \<and> addr < obj + lsize')"
    proof (cases "word_at H s = 0")
      case True
      let ?s' = "ALIGN_UP C (s + sizeof_gpointer)"
      have ge: "s \<le> ?s'" using ALIGN_UP_ge [OF A, of "s + sizeof_gpointer"] by simp
      show ?thesis
      proof (cases "?s' \<le> addr")
        case le: True
        with True 1(2) have "walk C H addr ?s' lobj lsize = Some y" by (simp add: Let_def)
        from 1(1) [OF this] A y ge show ?thesis by auto
      next
        case gt: False
        with True 1(2) y show ?thesis by (auto simp: Let_def)
      qed
    next
      case False
      let ?sz = "ALIGN_UP C (object_size H s)"
      show ?thesis
      proof (cases "word_at H (s + sizeof_gpointer) \<noteq> - 1 \<and> s \<le> addr \<and> addr < s + ?sz")
        case found: True
        with False 1(2) y show ?thesis by (auto simp: Let_def)
      next
        case nf: False
        show ?thesis
        proof (cases "s + ?sz \<le> addr")
          case le: True
          with False nf 1(2) have "walk C H addr (s + ?sz) s ?sz = Some y"
            by (simp add: Let_def)
          from 1(1) [OF this] A y show ?thesis by auto
        next
          case gt: False
          with False nf 1(2) y show ?thesis by (auto simp: Let_def)
        qed
      qed
    qed
  qed
qed

lemma find_search_start_ge:
  assumes "find_search_start C section start_nursery addr l = Inr s"
  shows "last_obj l \<le> s"
  using assms
  by (auto simp: find_search_start_def Let_def split: if_splits)

lemma sorted_wrt_less_distinct: "sorted_wrt (<) (xs :: nat list) \<Longrightarrow> distinct xs"
  by (induction xs) auto

lemma pin_candidate_inv:
  assumes A: "0 < ALLOC_ALIGN C"
      and inv: "pin_inv C H st0 i ls"
      and i: "i < length (addresses st0)"
      and step: "pin_candidate C H section start_nursery end_nursery addr ls = Some (Inr ls')"
  shows "pin_inv C H st0 (Suc i) ls'"
proof -
  obtain l st where ls: "ls = (l, st)" by (cases ls)
  from inv [unfolded pin_inv_def ls prod.case] obtain new where n:
    "pinned st = pinned st0 @ new" "gray_objects st = rev new @ gray_objects st0"
    "stat_pinned_objects st = stat_pinned_objects st0"
    "count l = length new" "count l \<le> i" "length (addresses st) = length (addresses st0)"
    "take (count l) (addresses st) = new" "drop i (addresses st) = drop i (addresses st0)"
    "sorted_wrt (<) new" "\<forall>x \<in> set new. x \<le> last_obj l"
    "(last_obj l = 0 \<and> last_obj_size l = 0 \<and> new = []) \<or>
       last_obj_size l = ALIGN_UP C (object_size H (last_obj l))"
    by (elim exE conjE) (rule that; assumption)
  have dropS: "drop (Suc i) (addresses st) = drop (Suc i) (addresses st0)"
    using n(8) by (metis drop_Suc tl_drop)
  have same: "pin_inv C H st0 (Suc i) (l, st)"
    unfolding pin_inv_def prod.case
    by (rule exI [of _ new], intro conjI) (use n dropS in simp_all)
  show ?thesis
  proof (cases "addr \<noteq> last l \<and> start_nursery \<le> addr \<and> addr < end_nursery \<and>
                \<not> (last_obj l \<le> addr \<and> addr < last_obj l + last_obj_size l)")
    case False
    with step ls have "ls' = (l, st)" by (auto simp: pin_candidate_def split: if_splits)
    with same show ?thesis by simp
  next
    case True
    with step ls obtain s where s: "find_search_start C section start_nursery addr l = Inr s"
      by (auto simp: pin_candidate_def split: sum.splits)
    from find_search_start_ge [OF s] have sge: "last_obj l \<le> s" .
    from step ls True s obtain r lobj lsize where
      w: "pin_walk C H addr s (last_obj l) (last_obj_size l) = Some (r, lobj, lsize)"
      by (auto simp: pin_candidate_def split: option.splits)
    from pin_walk_result [OF w] A have
      wr: "(lobj = last_obj l \<and> lsize = last_obj_size l \<and> r = None) \<or>
           (s \<le> lobj \<and> lsize = ALIGN_UP C (object_size H lobj))"
      and wf: "\<forall>obj. r = Some obj \<longrightarrow> obj = lobj \<and> obj \<le> addr \<and> addr < obj + lsize"
      by auto
    show ?thesis
    proof (cases r)
      case None
      with step ls True s w have ls': "ls' = (l\<lparr>last := addr, last_obj := lobj, last_obj_size := lsize\<rparr>, st)"
        by (auto simp: pin_candidate_def)
      have "\<forall>x \<in> set new. x \<le> lobj" using wr n(10) sge by auto
      moreover have "(lobj = 0 \<and> lsize = 0 \<and> new = []) \<or>
            lsize = ALIGN_UP C (object_size H lobj)" using wr n(11) by auto
      ultimately show ?thesis
        unfolding pin_inv_def ls' prod.case
        by (intro exI [of _ new] conjI) (use n dropS in simp_all)
    next
      case (Some obj)
      with step ls True s w have ls': "ls' =
          (l\<lparr>last := addr, count := count l + 1, last_obj := lobj, last_obj_size := lsize\<rparr>,
           st\<lparr>pinned := pinned st @ [obj], gray_objects := obj # gray_objects st,
              addresses := (addresses st)[count l := obj]\<rparr>)"
        by (auto simp: pin_candidate_def)
      from wf Some have o: "obj = lobj" "obj \<le> addr" "addr < obj + lsize" by auto
      from wr Some have o2: "s \<le> lobj" "lsize = ALIGN_UP C (object_size H lobj)" by auto
      have lt: "\<forall>x \<in> set new. x < obj"
      proof
        fix x assume x: "x \<in> set new"
        with n(10) sge o2 o have le: "x \<le> obj" "x \<le> last_obj l" "last_obj l \<le> obj" by auto
        show "x < obj"
        proof (rule ccontr)
          assume "\<not> x < obj"
          with le have e: "last_obj l = obj" by simp
          from x n(11) have "last_obj_size l = ALIGN_UP C (object_size H (last_obj l))" by auto
          with e o o2 have "last_obj l \<le> addr \<and> addr < last_obj l + last_obj_size l" by simp
          with True show False by simp
        qed
      qed
      have cl: "count l < length (addresses st)" using n(5,6) i by simp
      have t: "take (Suc (count l)) ((addresses st)[count l := obj]) = new @ [obj]"
        using cl n(7) by (simp add: take_Suc_conv_app_nth)
      have d: "drop (Suc i) ((addresses st)[count l := obj]) = drop (Suc i) (addresses st0)"
        using n(5) dropS by simp
      have sw: "sorted_wrt (<) (new @ [obj])" using n(9) lt by (simp add: sorted_wrt_append)
      have le: "\<forall>x \<in> set (new @ [obj]). x \<le> lobj" using lt o(1) by auto
      show ?thesis
        unfolding pin_inv_def ls' prod.case
        by (intro exI [of _ "new @ [obj]"] conjI) (use n t d sw o2 le in simp_all)
    qed
  qed
qed

lemma pin_loop_inv:
  "pin_loop C H sec start_nursery end_nursery n i ls = Some (Inr ls') \<Longrightarrow>
   0 < ALLOC_ALIGN C \<Longrightarrow>
   pin_inv C H st0 i ls \<Longrightarrow> n = length (addresses st0) \<Longrightarrow> i \<le> n \<Longrightarrow>
   pin_inv C H st0 n ls'"
proof (induction C H sec start_nursery end_nursery n i ls rule: pin_loop.induct)
  case (1 C H sec start_nursery end_nursery n i ls)
  show ?case
  proof (cases "i < n")
    case False
    with "1.prems"(1) have "ls' = ls" by (subst (asm) pin_loop.simps) simp
    moreover from False "1.prems"(5) have "i = n" by simp
    ultimately show ?thesis using "1.prems"(3) by simp
  next
    case True
    with "1.prems"(1) obtain ls1 where
      c: "pin_candidate C H sec start_nursery end_nursery (addresses (snd ls) ! i) ls
            = Some (Inr ls1)"
      and r: "pin_loop C H sec start_nursery end_nursery n (Suc i) ls1 = Some (Inr ls')"
      by (subst (asm) pin_loop.simps) (auto split: option.splits sum.splits)
    note A = "1.prems"(2) and inv = "1.prems"(3) and len = "1.prems"(4)
    have "i < length (addresses st0)" using True len by simp
    from pin_candidate_inv [OF A inv this c]
    have inv1: "pin_inv C H st0 (Suc i) ls1" .
    have "Suc i \<le> n" using True by simp
    from "1.IH" [OF True c refl r A inv1 len this] show ?thesis .
  qed
qed

text \<open>
  C9. Whenever \<^verbatim>\<open>pin_objects_from_addresses\<close> returns, for a sorted array of candidates
  as for any other: the objects it pinned are pairwise different (no object is pinned
  twice, however many candidates point into it), their number is the returned count and is
  at most the number of candidates, and they are the first \<open>count\<close> entries of the array
  in strictly increasing address order.
\<close>

theorem pin_objects_from_addresses_once_increasing:
  assumes "0 < ALLOC_ALIGN C"
      and "pin_objects_from_addresses C H sec start_nursery end_nursery st = Some (Inr (cnt, st'))"
  shows "\<exists>new. pinned st' = pinned st @ new \<and> distinct new \<and> sorted_wrt (<) new \<and>
               cnt = length new \<and> cnt \<le> length (addresses st) \<and>
               take cnt (addresses st') = new \<and>
               length (addresses st') = length (addresses st)"
proof -
  let ?l0 = "\<lparr>last = 0, count = 0, last_obj = 0, last_obj_size = 0\<rparr>"
  from assms(2) obtain l st1 where
    loop: "pin_loop C H sec start_nursery end_nursery (length (addresses st)) 0 (?l0, st)
             = Some (Inr (l, st1))"
    and res: "cnt = count l" "st' = st1\<lparr>stat_pinned_objects := stat_pinned_objects st1 + count l\<rparr>"
    by (auto simp: pin_objects_from_addresses_def split: option.splits sum.splits)
  have inv0: "pin_inv C H st 0 (?l0, st)"
    unfolding pin_inv_def prod.case by (rule exI [of _ "[]"]) simp
  from pin_loop_inv [OF loop assms(1) inv0 refl]
  have "pin_inv C H st (length (addresses st)) (l, st1)" by simp
  then obtain new where n:
    "pinned st1 = pinned st @ new" "count l = length new" "count l \<le> length (addresses st)"
    "length (addresses st1) = length (addresses st)" "take (count l) (addresses st1) = new"
    "sorted_wrt (<) new"
    unfolding pin_inv_def prod.case by (elim exE conjE) (rule that; assumption)
  from n(6) have "distinct new" by (rule sorted_wrt_less_distinct)
  with n res show ?thesis by (intro exI [of _ new]) simp
qed

theorem pin_objects_from_addresses_once_increasing_witness:
  "0 < ALLOC_ALIGN example_layout \<and>
   pin_objects_from_addresses example_layout example_heap example_section 1024 1280
       example_pin_state
     = Some (Inr (3, \<lparr>addresses = [1024, 1048, 1160, 1050, 1085, 1100, 1160, 1199, 1210],
                       pinned = [1024, 1048, 1160], gray_objects = [1160, 1048, 1024],
                       stat_pinned_objects = 3\<rparr>)) \<and>
   (\<exists>new. [1024, 1048, 1160] = pinned example_pin_state @ new \<and> distinct new \<and>
      sorted_wrt (<) new \<and> 3 = length new \<and> 3 \<le> length (addresses example_pin_state))"
proof -
  have a: "0 < ALLOC_ALIGN example_layout" by (simp add: example_layout_def)
  have r: "pin_objects_from_addresses example_layout example_heap example_section 1024 1280
       example_pin_state
     = Some (Inr (3, \<lparr>addresses = [1024, 1048, 1160, 1050, 1085, 1100, 1160, 1199, 1210],
                       pinned = [1024, 1048, 1160], gray_objects = [1160, 1048, 1024],
                       stat_pinned_objects = 3\<rparr>))"
    by code_simp
  from pin_objects_from_addresses_once_increasing [OF a r] a r show ?thesis by auto
qed

section \<open>Pinning agrees with the resolution of the candidates\<close>

subsection \<open>Alignment and the chain of objects\<close>















subsection \<open>The walk of the code and the walk of the specification\<close>











subsection \<open>The anchor\<close>







subsection \<open>The outer loop\<close>




















end
